theory Spec2Isabelle
  imports Complex_Main "HOL-Library.Sublist"
begin

section \<open>Strings\<close>

text \<open>
  Python strings are modelled as \<open>string\<close> (lists of 8-bit characters). The string
  methods the scraper calls (\<open>lower\<close>, \<open>title\<close>, \<open>strip\<close>, \<open>split\<close>, the
  operator \<open>in\<close>) are modelled on ASCII: a character outside \<open>A-Z\<close>, \<open>a-z\<close> has
  no case, and the whitespace characters are the ASCII ones that \<open>str.isspace\<close> accepts.
\<close>

definition upper_letters :: string where
  "upper_letters = ''ABCDEFGHIJKLMNOPQRSTUVWXYZ''"

definition lower_letters :: string where
  "lower_letters = ''abcdefghijklmnopqrstuvwxyz''"

definition lower_char :: "char \<Rightarrow> char" where
  "lower_char c = (case map_of (zip upper_letters lower_letters) c of Some l \<Rightarrow> l | None \<Rightarrow> c)"

definition upper_char :: "char \<Rightarrow> char" where
  "upper_char c = (case map_of (zip lower_letters upper_letters) c of Some u \<Rightarrow> u | None \<Rightarrow> c)"

definition is_cased :: "char \<Rightarrow> bool" where
  "is_cased c = (c \<in> set upper_letters \<or> c \<in> set lower_letters)"

text \<open>\<open>str.lower()\<close>\<close>

definition str_lower :: "string \<Rightarrow> string" where
  "str_lower s = map lower_char s"

text \<open>
  \<open>str.title()\<close>: a cased character that follows an uncased one (or starts the string)
  is put in upper case, every other cased character in lower case.
\<close>

fun title_from :: "bool \<Rightarrow> string \<Rightarrow> string" where
  "title_from prev [] = []"
| "title_from prev (c # cs) =
     (if is_cased c
      then (if prev then lower_char c else upper_char c) # title_from True cs
      else c # title_from False cs)"

definition str_title :: "string \<Rightarrow> string" where
  "str_title s = title_from False s"

text \<open>
  \<open>str.strip()\<close>: the ASCII characters for which \<open>str.isspace\<close> holds are tab, line
  feed, vertical tab, form feed, carriage return, the four separators 0x1C-0x1F and the
  space.
\<close>

definition is_space :: "char \<Rightarrow> bool" where
  "is_space c = (of_char c \<in> {9, 10, 11, 12, 13, 28, 29, 30, 31, 32 :: nat})"

definition str_strip :: "string \<Rightarrow> string" where
  "str_strip s = rev (dropWhile is_space (rev (dropWhile is_space s)))"

text \<open>The operator \<open>sub in s\<close> on strings: \<open>sub\<close> occurs in \<open>s\<close> at some position.\<close>

fun contains :: "string \<Rightarrow> string \<Rightarrow> bool" where
  "contains sub [] = (sub = [])"
| "contains sub (c # cs) = (prefix sub (c # cs) \<or> contains sub cs)"

text \<open>
  \<open>s.split(sep)\<close> for a non-empty separator: scan from the left, cut at every
  occurrence of \<open>sep\<close> and go on behind it. \<open>acc\<close> is the part read since the last
  cut. (Python raises \<open>ValueError\<close> for an empty separator; the scraper's separator is
  a literal of three characters, and \<open>split_from\<close> then returns the text uncut.)
\<close>

function split_from :: "string \<Rightarrow> string \<Rightarrow> string \<Rightarrow> string list" where
  "split_from sep acc [] = [acc]"
| "split_from sep acc (c # cs) =
     (if sep \<noteq> [] \<and> prefix sep (c # cs)
      then acc # split_from sep [] (drop (length sep) (c # cs))
      else split_from sep (acc @ [c]) cs)"
  by pat_completeness auto
termination
  by (relation "measure (\<lambda>(sep, acc, s). length s)") auto

definition str_split :: "string \<Rightarrow> string \<Rightarrow> string list" where
  "str_split s sep = split_from sep [] s"

section \<open>City extraction\<close>

text \<open>
  \<^verbatim>\<open>
  def extract_city_from_description(desc: str) -> str:
      desc_lower = desc.lower()
      cities = [...]
      for city in cities:
          if city in desc_lower:
              return city.title()
      return ""
  \<close>
\<close>

definition cities :: "string list" where
  "cities = [''karachi'', ''lahore'', ''islamabad'', ''rawalpindi'',
             ''faisalabad'', ''multan'', ''peshawar'', ''quetta'',
             ''sialkot'', ''gujranwala'', ''hyderabad'', ''bahawalpur'']"

fun city_loop :: "string list \<Rightarrow> string \<Rightarrow> string" where
  "city_loop [] desc_lower = ''''"
| "city_loop (city # rest) desc_lower =
     (if contains city desc_lower then str_title city else city_loop rest desc_lower)"

definition extract_city_from_description :: "string \<Rightarrow> string" where
  "extract_city_from_description desc = city_loop cities (str_lower desc)"

section \<open>Engine specs\<close>

text \<open>
  \<^verbatim>\<open>
  def parse_engine_specs(engine_text: str):
      parts = [p.strip() for p in engine_text.split(' . ')]
      fuel_type = ""; engine_capacity = ""; transmission = ""
      if len(parts) >= 1: fuel_type = parts[0]
      if len(parts) >= 2: engine_capacity = parts[1]
      if len(parts) >= 3: transmission = parts[2]
      return fuel_type, engine_capacity, transmission
  \<close>
\<close>

definition engine_parts :: "string \<Rightarrow> string list" where
  "engine_parts engine_text = map str_strip (str_split engine_text '' . '')"

definition parse_engine_specs :: "string \<Rightarrow> string \<times> string \<times> string" where
  "parse_engine_specs engine_text =
     (let parts = engine_parts engine_text;
          fuel_type = (if length parts \<ge> 1 then parts ! 0 else '''');
          engine_capacity = (if length parts \<ge> 2 then parts ! 1 else '''');
          transmission = (if length parts \<ge> 3 then parts ! 2 else '''')
      in (fuel_type, engine_capacity, transmission))"

section \<open>Numbers as text\<close>

text \<open>
  \<open>str(n)\<close> and \<open>format(n, ',')\<close> for Python's unbounded integers: the decimal
  digits, a leading minus sign for a negative number, and for \<open>','\<close> a comma before
  every group of three digits counted from the right.
\<close>

definition digit_char :: "nat \<Rightarrow> char" where
  "digit_char d = ''0123456789'' ! d"

function str_nat :: "nat \<Rightarrow> string" where
  "str_nat n = (if n < 10 then [digit_char n] else str_nat (n div 10) @ [digit_char (n mod 10)])"
  by pat_completeness auto
termination
  by (relation "measure id") auto

declare str_nat.simps [simp del]

function group3 :: "string \<Rightarrow> string" where
  "group3 ds =
     (if length ds \<le> 3 then ds
      else group3 (take (length ds - 3) ds) @ '','' @ drop (length ds - 3) ds)"
  by pat_completeness auto
termination
  by (relation "measure length") auto

declare group3.simps [simp del]

definition str_int :: "int \<Rightarrow> string" where
  "str_int i = (if i < 0 then ''-'' @ str_nat (nat (- i)) else str_nat (nat i))"

definition comma_int :: "int \<Rightarrow> string" where
  "comma_int i = (if i < 0 then ''-'' @ group3 (str_nat (nat (- i))) else group3 (str_nat (nat i)))"

section \<open>Values read from the page\<close>

text \<open>
  The exceptions the handlers of the scraper tell apart: \<open>Timeout\<close> (with its subclass
  \<open>ReadTimeout\<close>), every other \<open>RequestException\<close> (\<open>HTTPError\<close>,
  \<open>ConnectionError\<close>, ...), every other \<open>Exception\<close> (the \<open>AttributeError\<close> of
  the extraction, the \<open>OSError\<close> of \<open>open\<close>), and \<open>KeyboardInterrupt\<close>, which is
  not an \<open>Exception\<close>.
\<close>

datatype exn = Timeout | RequestException | OtherException | KeyboardInterrupt

text \<open>
  The values \<open>json.loads\<close> returns. Floating-point numbers are kept abstract; what
  Python does with them is taken from the library record below. An object is a Python
  dict, looked up with \<open>map_of\<close>.
\<close>

typedecl pyfloat

datatype json =
    JNull
  | JBool bool
  | JInt int
  | JFloat pyfloat
  | JStr string
  | JArr "json list"
  | JObj "(string \<times> json) list"

text \<open>
  The library functions whose code is not part of the scraper: \<open>json.loads\<close>
  (\<open>None\<close> when it raises), and for floats \<open>str(x)\<close>, \<open>format(x, ',')\<close> and
  \<open>bool(x)\<close>, and \<open>str(v)\<close> of a list or dict.
\<close>

record pylib =
  json_loads :: "string \<Rightarrow> json option"
  float_str :: "pyfloat \<Rightarrow> string"
  float_comma :: "pyfloat \<Rightarrow> string"
  float_bool :: "pyfloat \<Rightarrow> bool"
  container_str :: "json \<Rightarrow> string"

text \<open>\<open>isinstance(v, (int, float))\<close>; Python's \<open>bool\<close> is a subclass of \<open>int\<close>.\<close>

fun is_int_or_float :: "json \<Rightarrow> bool" where
  "is_int_or_float (JInt i) = True"
| "is_int_or_float (JFloat x) = True"
| "is_int_or_float (JBool b) = True"
| "is_int_or_float v = False"

text \<open>\<open>str(v)\<close>, which is also \<open>format(v, '')\<close>.\<close>

fun py_str :: "pylib \<Rightarrow> json \<Rightarrow> string" where
  "py_str L (JStr s) = s"
| "py_str L (JInt i) = str_int i"
| "py_str L (JBool b) = (if b then ''True'' else ''False'')"
| "py_str L JNull = ''None''"
| "py_str L (JFloat x) = float_str L x"
| "py_str L v = container_str L v"

text \<open>\<open>format(v, ',')\<close> for the values that pass \<open>isinstance(v, (int, float))\<close>.\<close>

fun format_comma :: "pylib \<Rightarrow> json \<Rightarrow> string" where
  "format_comma L (JInt i) = comma_int i"
| "format_comma L (JBool b) = comma_int (if b then 1 else 0)"
| "format_comma L (JFloat x) = float_comma L x"
| "format_comma L v = ''''"

text \<open>Truth value of a value, as \<open>or\<close> tests it.\<close>

fun truthy :: "pylib \<Rightarrow> json \<Rightarrow> bool" where
  "truthy L JNull = False"
| "truthy L (JBool b) = b"
| "truthy L (JInt i) = (i \<noteq> 0)"
| "truthy L (JFloat x) = float_bool L x"
| "truthy L (JStr s) = (s \<noteq> [])"
| "truthy L (JArr vs) = (vs \<noteq> [])"
| "truthy L (JObj kvs) = (kvs \<noteq> [])"

text \<open>A statement that may raise, followed by the rest of the block.\<close>

definition and_then :: "exn + 'a \<Rightarrow> ('a \<Rightarrow> exn + 'b) \<Rightarrow> exn + 'b" where
  "and_then m f = (case m of Inl e \<Rightarrow> Inl e | Inr x \<Rightarrow> f x)"

text \<open>\<open>v.get(key, default)\<close>: only a dict has the method.\<close>

fun dict_get :: "json \<Rightarrow> string \<Rightarrow> json \<Rightarrow> exn + json" where
  "dict_get (JObj kvs) key dflt = Inr (case map_of kvs key of None \<Rightarrow> dflt | Some v \<Rightarrow> v)"
| "dict_get v key dflt = Inl OtherException"

text \<open>\<open>v.strip()\<close>: only a string has the method.\<close>

fun strip_method :: "json \<Rightarrow> exn + string" where
  "strip_method (JStr s) = Inr (str_strip s)"
| "strip_method v = Inl OtherException"

section \<open>Listings\<close>

text \<open>
  What the selectors find in the parsed page. A spec item carries the \<open>class\<close> list of
  its first \<open>i\<close> element (\<open>None\<close> without such an element; a missing attribute is the
  empty list) and its stripped text. A listing container carries its
  \<open>application/ld+json\<close> script element (\<open>None\<close> when there is none) with that
  element's \<open>.string\<close> (\<open>None\<close> when it has none), and the \<open>li\<close> elements of its
  \<open>ul.ad-specs\<close> (\<open>None\<close> when there is no such list).
\<close>

record spec_li =
  icon_class :: "string list option"
  li_text :: string

record listing =
  script_tag :: "string option option"
  specs_ul :: "spec_li list option"

record specs =
  mileage :: string
  color :: string
  registered_in :: string
  fuel_type :: string
  transmission :: string
  engine_capacity :: string

record car = specs +
  title :: string
  price :: string
  city :: string
  year :: json
  link :: json

definition empty_specs :: specs where
  "empty_specs = \<lparr>mileage = '''', color = '''', registered_in = '''',
     fuel_type = '''', transmission = '''', engine_capacity = ''''\<rparr>"

text \<open>
  \<^verbatim>\<open>
  icon = spec_li.find("i")
  classes = icon.get("class", []) if icon else []
  text = spec_li.get_text(strip=True)
  if any("pw-mileage" in c for c in classes):        mileage = text
  elif any("pw-color" in c for c in classes):        color = text
  elif any("pw-registration" in c for c in classes): registered_in = text
  elif any("pw-engine" in c for c in classes):
      fuel_type, engine_capacity, transmission = parse_engine_specs(text)
  \<close>
\<close>

definition classes_of :: "spec_li \<Rightarrow> string list" where
  "classes_of item = (case icon_class item of None \<Rightarrow> [] | Some cl \<Rightarrow> cl)"

definition spec_step :: "spec_li \<Rightarrow> specs \<Rightarrow> specs" where
  "spec_step item s =
     (let classes = classes_of item; txt = li_text item in
      if list_ex (contains ''pw-mileage'') classes then s\<lparr>mileage := txt\<rparr>
      else if list_ex (contains ''pw-color'') classes then s\<lparr>color := txt\<rparr>
      else if list_ex (contains ''pw-registration'') classes then s\<lparr>registered_in := txt\<rparr>
      else if list_ex (contains ''pw-engine'') classes then
        (case parse_engine_specs txt of
           (f, e, t) \<Rightarrow> s\<lparr>fuel_type := f, engine_capacity := e, transmission := t\<rparr>)
      else s)"

fun spec_loop :: "spec_li list \<Rightarrow> specs \<Rightarrow> specs" where
  "spec_loop [] s = s"
| "spec_loop (item # rest) s = spec_loop rest (spec_step item s)"

text \<open>
  The body of the loop over the listing containers, from \<open>data.get("name", "")\<close> to
  the dict that is appended: \<open>Inl\<close> when a method call raises.
\<close>

definition build_car :: "pylib \<Rightarrow> listing \<Rightarrow> json \<Rightarrow> exn + car" where
  "build_car L li data =
     and_then (dict_get data ''name'' (JStr '''')) (\<lambda>name.
     and_then (strip_method name) (\<lambda>title_v.
     and_then (dict_get data ''description'' (JStr '''')) (\<lambda>description.
     and_then (strip_method description) (\<lambda>desc.
     and_then (dict_get data ''modelDate'' (JStr '''')) (\<lambda>year_v.
     and_then (dict_get data ''offers'' (JObj [])) (\<lambda>offers_v.
     let offers = (if truthy L offers_v then offers_v else JObj []) in
     and_then (dict_get offers ''price'' (JStr '''')) (\<lambda>price_v.
     and_then (dict_get offers ''priceCurrency'' (JStr ''PKR'')) (\<lambda>currency.
     and_then (dict_get offers ''url'' (JStr '''')) (\<lambda>link_v.
     let city_v = extract_city_from_description desc;
         year_s = (if is_int_or_float year_v then JStr (py_str L year_v) else year_v);
         price_str = (if is_int_or_float price_v
                      then py_str L currency @ '' '' @ format_comma L price_v
                      else py_str L price_v);
         s = (case specs_ul li of None \<Rightarrow> empty_specs
              | Some items \<Rightarrow> spec_loop items empty_specs)
     in Inr (specs.extend s
          (car.fields title_v price_str city_v year_s link_v)))))))))))"

text \<open>
  \<^verbatim>\<open>
  cars = []
  for li in soup.select("ul.search-results li.classified-listing"):
      script_tag = li.find("script", attrs={"type": "application/ld+json"})
      if not script_tag or not script_tag.string:
          continue
      try:
          data = json.loads(script_tag.string)
      except Exception:
          continue
      ...
      cars.append({...})
  \<close>
\<close>

fun listing_loop :: "pylib \<Rightarrow> listing list \<Rightarrow> car list \<Rightarrow> exn + car list" where
  "listing_loop L [] cars = Inr cars"
| "listing_loop L (li # rest) cars =
     (case script_tag li of
        None \<Rightarrow> listing_loop L rest cars
      | Some None \<Rightarrow> listing_loop L rest cars
      | Some (Some s) \<Rightarrow>
          if s = [] then listing_loop L rest cars
          else (case json_loads L s of
                  None \<Rightarrow> listing_loop L rest cars
                | Some data \<Rightarrow>
                    (case build_car L li data of
                       Inl e \<Rightarrow> Inl e
                     | Inr c \<Rightarrow> listing_loop L rest (cars @ [c]))))"

text \<open>
  The kind under which the \<open>if\<close>/\<open>elif\<close> chain of the spec loop takes an item: the
  first of the four tokens that occurs in one of the icon's class names.
\<close>

datatype spec_kind = Mileage | Color | Registration | Engine

definition classify :: "spec_li \<Rightarrow> spec_kind option" where
  "classify item =
     (let classes = classes_of item in
      if list_ex (contains ''pw-mileage'') classes then Some Mileage
      else if list_ex (contains ''pw-color'') classes then Some Color
      else if list_ex (contains ''pw-registration'') classes then Some Registration
      else if list_ex (contains ''pw-engine'') classes then Some Engine
      else None)"

definition of_kind :: "spec_kind \<Rightarrow> spec_li list \<Rightarrow> spec_li list" where
  "of_kind k items = filter (\<lambda>item. classify item = Some k) items"

text \<open>A library and a page for the examples.\<close>

definition lib0 :: pylib where
  "lib0 = \<lparr>json_loads = (\<lambda>s. if s = ''{}'' then Some (JObj []) else None),
     float_str = (\<lambda>x. ''''), float_comma = (\<lambda>x. ''''), float_bool = (\<lambda>x. True),
     container_str = (\<lambda>v. '''')\<rparr>"

definition civic :: json where
  "civic = JObj [(''name'', JStr '' Civic ''), (''modelDate'', JInt 2015),
     (''offers'', JObj [(''price'', JInt 1250000)])]"

definition on_call :: json where
  "on_call = JObj [(''offers'', JObj [(''price'', JStr ''Call''), (''priceCurrency'', JStr ''USD'')])]"

definition spec_items :: "spec_li list" where
  "spec_items =
     [\<lparr>icon_class = Some [''icon'', ''pw-mileage''], li_text = ''10,000 km''\<rparr>,
      \<lparr>icon_class = Some [''pw-engine''], li_text = ''Petrol . 1300 cc''\<rparr>,
      \<lparr>icon_class = Some [''pw-mileage-alt''], li_text = ''25,000 km''\<rparr>,
      \<lparr>icon_class = None, li_text = ''other''\<rparr>]"

definition two_mileages :: listing where
  "two_mileages = \<lparr>script_tag = Some (Some ''{}''), specs_ul = Some spec_items\<rparr>"

definition no_script :: listing where
  "no_script = \<lparr>script_tag = None, specs_ul = None\<rparr>"

definition bad_script :: listing where
  "bad_script = \<lparr>script_tag = Some (Some ''{oops''), specs_ul = None\<rparr>"

definition civic_car :: car where
  "civic_car = \<lparr>mileage = '''', color = '''', registered_in = '''', fuel_type = '''',
     transmission = '''', engine_capacity = '''', title = ''Civic'',
     price = ''PKR 1,250,000'', city = '''', year = JStr ''2015'', link = JStr ''''\<rparr>"

definition on_call_car :: car where
  "on_call_car = \<lparr>mileage = '''', color = '''', registered_in = '''', fuel_type = '''',
     transmission = '''', engine_capacity = '''', title = '''',
     price = ''Call'', city = '''', year = JStr '''', link = JStr ''''\<rparr>"

section \<open>Fetching a page\<close>

definition MAX_RETRIES :: nat where
  "MAX_RETRIES = 5"

definition BASE_DELAY :: nat where
  "BASE_DELAY = 2"

definition SAVE_INTERVAL :: nat where
  "SAVE_INTERVAL = 20"

definition MAX_PAGES :: nat where
  "MAX_PAGES = 2000"

text \<open>
  What \<open>session.get\<close> can do: return a response, of which the scraper reads the status
  (in \<open>raise_for_status\<close>) and the listing containers that
  \<open>soup.select("ul.search-results li.classified-listing")\<close> finds in its text, or
  raise.
\<close>

record response =
  status_code :: nat
  listings :: "listing list"

datatype get_outcome = Returns response | Raises exn

text \<open>
  The surroundings of a run: the library; the network, which answers the request for a
  page with a timeout (a run asks for each pair at most once); the user, who may
  interrupt the \<open>n\<close>-th call of \<open>time.sleep\<close>; the disk, on which opening a file
  for writing may raise.
\<close>

record env =
  lib :: pylib
  session_get :: "nat \<Rightarrow> nat \<Rightarrow> get_outcome"
  sleep_interrupted :: "nat \<Rightarrow> bool"
  open_raises :: "string \<Rightarrow> exn option"

text \<open>
  What a run leaves behind, in order: the requests sent (page and timeout), the
  durations slept (in seconds), the files written (name and rows, each row a list of
  cells).
\<close>

record world =
  requests :: "(nat \<times> nat) list"
  slept :: "rat list"
  files :: "(string \<times> json list list) list"

definition time_sleep :: "env \<Rightarrow> rat \<Rightarrow> world \<Rightarrow> exn option \<times> world" where
  "time_sleep E t w =
     (if sleep_interrupted E (length (slept w)) then Some KeyboardInterrupt else None,
      w\<lparr>slept := slept w @ [t]\<rparr>)"

text \<open>
  The body of the \<open>try\<close> block of \<open>scrape_page\<close>:
  \<^verbatim>\<open>
  params = {"page": page}
  timeout = 20 + (attempt * 10)
  resp = session.get(SEARCH_URL, headers=HEADERS, params=params, timeout=timeout)
  resp.raise_for_status()
  soup = BeautifulSoup(resp.text, "lxml")
  cars = [] ... return cars
  \<close>
  \<open>raise_for_status\<close> raises \<open>HTTPError\<close>, a \<open>RequestException\<close>, for a status
  from 400 to 599.
\<close>

definition try_body :: "env \<Rightarrow> nat \<Rightarrow> nat \<Rightarrow> world \<Rightarrow> (exn + car list) \<times> world" where
  "try_body E pg attempt w =
     (let timeout = 20 + attempt * 10;
          w1 = w\<lparr>requests := requests w @ [(pg, timeout)]\<rparr>
      in case session_get E pg timeout of
           Raises e \<Rightarrow> (Inl e, w1)
         | Returns resp \<Rightarrow>
             if 400 \<le> status_code resp \<and> status_code resp < 600
             then (Inl RequestException, w1)
             else (listing_loop (lib E) (listings resp) [], w1))"

text \<open>
  \<^verbatim>\<open>
  for attempt in range(MAX_RETRIES):
      try: ...
      except (ReadTimeout, Timeout):
          wait_time = BASE_DELAY * (2 ** attempt)
          if attempt < MAX_RETRIES - 1: time.sleep(wait_time)
          else: return []
      except RequestException as e:
          wait_time = BASE_DELAY * (2 ** attempt)
          if attempt < MAX_RETRIES - 1: time.sleep(wait_time)
          else: return []
      except Exception as e:
          return []
  return []
  \<close>
  The first two handlers do the same. \<open>KeyboardInterrupt\<close> is caught by none of
  them, whether \<open>session.get\<close> or \<open>time.sleep\<close> raises it.
\<close>

fun attempts_loop :: "env \<Rightarrow> nat \<Rightarrow> nat list \<Rightarrow> world \<Rightarrow> (exn + car list) \<times> world" where
  "attempts_loop E pg [] w = (Inr [], w)"
| "attempts_loop E pg (attempt # rest) w =
     (case try_body E pg attempt w of
        (Inr cars, w1) \<Rightarrow> (Inr cars, w1)
      | (Inl e, w1) \<Rightarrow>
          if e = Timeout \<or> e = RequestException then
            (if attempt < MAX_RETRIES - 1 then
               (case time_sleep E (of_nat (BASE_DELAY * 2 ^ attempt)) w1 of
                  (Some ki, w2) \<Rightarrow> (Inl ki, w2)
                | (None, w2) \<Rightarrow> attempts_loop E pg rest w2)
             else (Inr [], w1))
          else if e = OtherException then (Inr [], w1)
          else (Inl e, w1))"

definition scrape_page :: "env \<Rightarrow> nat \<Rightarrow> world \<Rightarrow> (exn + car list) \<times> world" where
  "scrape_page E pg w = attempts_loop E pg [0..<MAX_RETRIES] w"

section \<open>Saving\<close>

text \<open>
  \<^verbatim>\<open>
  def save_to_csv(cars, filename):
      fieldnames = ["title", "price", "city", "year", "mileage", "color",
                    "registered_in", "fuel_type", "engine_capacity", "transmission", "link"]
      with open(filename, "w", newline="", encoding="utf-8") as f:
          writer = csv.DictWriter(f, fieldnames=fieldnames)
          writer.writeheader()
          writer.writerows(cars)
  \<close>
  A file is modelled by its rows, a row by the cells handed to the writer.
\<close>

definition fieldnames :: "string list" where
  "fieldnames = [''title'', ''price'', ''city'', ''year'', ''mileage'', ''color'',
     ''registered_in'', ''fuel_type'', ''engine_capacity'', ''transmission'', ''link'']"

definition row_of :: "car \<Rightarrow> json list" where
  "row_of c = [JStr (title c), JStr (price c), JStr (city c), year c, JStr (mileage c),
     JStr (color c), JStr (registered_in c), JStr (fuel_type c), JStr (engine_capacity c),
     JStr (transmission c), link c]"

definition csv_rows :: "car list \<Rightarrow> json list list" where
  "csv_rows cars = map JStr fieldnames # map row_of cars"

definition save_to_csv :: "env \<Rightarrow> car list \<Rightarrow> string \<Rightarrow> world \<Rightarrow> exn option \<times> world" where
  "save_to_csv E cars filename w =
     (case open_raises E filename of
        Some e \<Rightarrow> (Some e, w)
      | None \<Rightarrow> (None, w\<lparr>files := files w @ [(filename, csv_rows cars)]\<rparr>))"

section \<open>The driver\<close>

text \<open>
  The variables of \<open>main\<close>. The record \<open>run\<close> has the variables without
  \<open>consecutive_empty\<close>; \<open>driver\<close> adds the counter.
\<close>

record run =
  all_cars :: "car list"
  page :: nat
  world :: world

record driver = run +
  consecutive_empty :: nat

definition backup_file :: "nat \<Rightarrow> string" where
  "backup_file pg = ''pakwheels_cars_backup_page'' @ str_nat pg @ ''.csv''"

definition final_file :: string where
  "final_file = ''pakwheels_cars_final.csv''"

text \<open>
  One pass through the body of the \<open>while\<close> loop; \<open>Some e\<close> when \<open>e\<close> leaves the
  body.
  \<^verbatim>\<open>
  cars = scrape_page(session, page)
  if not cars:
      consecutive_empty += 1
      page += 1
      time.sleep(2)
      continue
  consecutive_empty = 0
  all_cars.extend(cars)
  if page % SAVE_INTERVAL == 0:
      backup_file = f"pakwheels_cars_backup_page{page}.csv"
      save_to_csv(all_cars, backup_file)
  page += 1
  time.sleep(1.5)
  \<close>
\<close>

definition loop_body :: "env \<Rightarrow> driver \<Rightarrow> exn option \<times> driver" where
  "loop_body E d =
     (case scrape_page E (page d) (world d) of
        (Inl e, w1) \<Rightarrow> (Some e, d\<lparr>world := w1\<rparr>)
      | (Inr cars, w1) \<Rightarrow>
          if cars = [] then
            (let d1 = d\<lparr>world := w1, consecutive_empty := consecutive_empty d + 1,
                        page := page d + 1\<rparr>
             in case time_sleep E 2 w1 of (r, w2) \<Rightarrow> (r, d1\<lparr>world := w2\<rparr>))
          else
            (let d1 = d\<lparr>world := w1, consecutive_empty := 0, all_cars := all_cars d @ cars\<rparr>
             in case (if page d1 mod SAVE_INTERVAL = 0
                      then save_to_csv E (all_cars d1) (backup_file (page d1)) w1
                      else (None, w1)) of
                  (Some e, w2) \<Rightarrow> (Some e, d1\<lparr>world := w2\<rparr>)
                | (None, w2) \<Rightarrow>
                    (let d2 = d1\<lparr>world := w2, page := page d1 + 1\<rparr>
                     in case time_sleep E (3 / 2) w2 of (r, w3) \<Rightarrow> (r, d2\<lparr>world := w3\<rparr>))))"

lemma loop_body_page:
  "loop_body E d = (None, d') \<Longrightarrow> page d' = page d + 1"
  by (auto simp: loop_body_def Let_def time_sleep_def save_to_csv_def
      split: prod.splits sum.splits if_splits option.splits)

text \<open>\<open>while page <= MAX_PAGES: ...\<close>\<close>

function main_loop :: "env \<Rightarrow> driver \<Rightarrow> exn option \<times> driver" where
  "main_loop E d =
     (if page d \<le> MAX_PAGES then
        (case loop_body E d of
           (Some e, d') \<Rightarrow> (Some e, d')
         | (None, d') \<Rightarrow> main_loop E d')
      else (None, d))"
  by pat_completeness auto
termination
  apply (relation "measure (\<lambda>(E, d). MAX_PAGES + 1 - page d)")
   apply simp
  apply (auto dest!: sym [THEN loop_body_page])
  done

declare main_loop.simps [simp del]

text \<open>
  \<^verbatim>\<open>
  all_cars = []; page = 1; consecutive_empty = 0
  try:
      while page <= MAX_PAGES: ...
  except KeyboardInterrupt: print(...)
  except Exception as e:    print(...)
  finally:
      if all_cars:
          save_to_csv(all_cars, "pakwheels_cars_final.csv")
  \<close>
  The two handlers catch whatever leaves the loop; what \<open>save_to_csv\<close> raises in the
  \<open>finally\<close> block leaves \<open>main\<close>.
\<close>

definition world0 :: world where
  "world0 = \<lparr>requests = [], slept = [], files = []\<rparr>"

definition driver0 :: driver where
  "driver0 = \<lparr>all_cars = [], page = 1, world = world0, consecutive_empty = 0\<rparr>"

definition finally_block :: "env \<Rightarrow> driver \<Rightarrow> exn option \<times> driver" where
  "finally_block E d =
     (if all_cars d \<noteq> [] then
        (case save_to_csv E (all_cars d) final_file (world d) of
           (r, w1) \<Rightarrow> (r, d\<lparr>world := w1\<rparr>))
      else (None, d))"

definition main :: "env \<Rightarrow> exn option \<times> driver" where
  "main E = (case main_loop E driver0 of (r, d) \<Rightarrow> finally_block E d)"

text \<open>Sites and surroundings for the examples.\<close>

definition plain_listing :: listing where
  "plain_listing = \<lparr>script_tag = Some (Some ''{}''), specs_ul = None\<rparr>"

definition blank_car :: car where
  "blank_car = \<lparr>mileage = '''', color = '''', registered_in = '''', fuel_type = '''',
     transmission = '''', engine_capacity = '''', title = '''',
     price = '''', city = '''', year = JStr '''', link = JStr ''''\<rparr>"

definition ok_page :: get_outcome where
  "ok_page = Returns \<lparr>status_code = 200, listings = [plain_listing]\<rparr>"

definition empty_page :: get_outcome where
  "empty_page = Returns \<lparr>status_code = 200, listings = []\<rparr>"

definition env_of :: "(nat \<Rightarrow> nat \<Rightarrow> get_outcome) \<Rightarrow> env" where
  "env_of g = \<lparr>lib = lib0, session_get = g, sleep_interrupted = (\<lambda>n. False),
     open_raises = (\<lambda>name. None)\<rparr>"

definition slow_site :: "nat \<Rightarrow> nat \<Rightarrow> get_outcome" where
  "slow_site pg timeout = (if timeout = 60 then ok_page else Raises Timeout)"

definition dead_site :: "nat \<Rightarrow> nat \<Rightarrow> get_outcome" where
  "dead_site pg timeout = Raises RequestException"

definition two_pages :: "nat \<Rightarrow> nat \<Rightarrow> get_outcome" where
  "two_pages pg timeout = (if pg = 1 then ok_page else empty_page)"

definition interrupted_at :: "nat \<Rightarrow> nat \<Rightarrow> nat \<Rightarrow> get_outcome" where
  "interrupted_at n pg timeout = (if pg < n then ok_page else Raises KeyboardInterrupt)"

text \<open>
  The first \<open>n\<close> passes through the \<open>while\<close> loop of \<open>main\<close>, and the records
  that \<open>scrape_page\<close> returns for page \<open>k + 1\<close> in the run from the start.
\<close>

fun passes :: "nat \<Rightarrow> env \<Rightarrow> driver \<Rightarrow> exn option \<times> driver" where
  "passes 0 E d = (None, d)"
| "passes (Suc n) E d =
     (case passes n E d of
        (Some e, d') \<Rightarrow> (Some e, d')
      | (None, d') \<Rightarrow> if page d' \<le> MAX_PAGES then loop_body E d' else (None, d'))"

definition page_records :: "env \<Rightarrow> nat \<Rightarrow> car list" where
  "page_records E k =
     (case fst (scrape_page E (Suc k) (world (snd (passes k E driver0)))) of
        Inr cars \<Rightarrow> cars
      | Inl e \<Rightarrow> [])"

definition always_ok :: "nat \<Rightarrow> nat \<Rightarrow> get_outcome" where
  "always_ok pg timeout = ok_page"

text \<open>
  The driver with the counter removed: the same statements on the variables of \<open>run\<close>,
  without the two assignments to \<open>consecutive_empty\<close>.
\<close>

definition loop_body_nc :: "env \<Rightarrow> run \<Rightarrow> exn option \<times> run" where
  "loop_body_nc E d =
     (case scrape_page E (page d) (world d) of
        (Inl e, w1) \<Rightarrow> (Some e, d\<lparr>world := w1\<rparr>)
      | (Inr cars, w1) \<Rightarrow>
          if cars = [] then
            (let d1 = d\<lparr>world := w1, page := page d + 1\<rparr>
             in case time_sleep E 2 w1 of (r, w2) \<Rightarrow> (r, d1\<lparr>world := w2\<rparr>))
          else
            (let d1 = d\<lparr>world := w1, all_cars := all_cars d @ cars\<rparr>
             in case (if page d1 mod SAVE_INTERVAL = 0
                      then save_to_csv E (all_cars d1) (backup_file (page d1)) w1
                      else (None, w1)) of
                  (Some e, w2) \<Rightarrow> (Some e, d1\<lparr>world := w2\<rparr>)
                | (None, w2) \<Rightarrow>
                    (let d2 = d1\<lparr>world := w2, page := page d1 + 1\<rparr>
                     in case time_sleep E (3 / 2) w2 of (r, w3) \<Rightarrow> (r, d2\<lparr>world := w3\<rparr>))))"

lemma loop_body_nc_page:
  "loop_body_nc E d = (None, d') \<Longrightarrow> page d' = page d + 1"
  by (auto simp: loop_body_nc_def Let_def time_sleep_def save_to_csv_def
      split: prod.splits sum.splits if_splits option.splits)

function main_loop_nc :: "env \<Rightarrow> run \<Rightarrow> exn option \<times> run" where
  "main_loop_nc E d =
     (if page d \<le> MAX_PAGES then
        (case loop_body_nc E d of
           (Some e, d') \<Rightarrow> (Some e, d')
         | (None, d') \<Rightarrow> main_loop_nc E d')
      else (None, d))"
  by pat_completeness auto
termination
  apply (relation "measure (\<lambda>(E, d). MAX_PAGES + 1 - page d)")
   apply simp
  apply (auto dest!: sym [THEN loop_body_nc_page])
  done

declare main_loop_nc.simps [simp del]

definition run0 :: run where
  "run0 = \<lparr>all_cars = [], page = 1, world = world0\<rparr>"

definition finally_block_nc :: "env \<Rightarrow> run \<Rightarrow> exn option \<times> run" where
  "finally_block_nc E d =
     (if all_cars d \<noteq> [] then
        (case save_to_csv E (all_cars d) final_file (world d) of
           (r, w1) \<Rightarrow> (r, d\<lparr>world := w1\<rparr>))
      else (None, d))"

definition main_nc :: "env \<Rightarrow> exn option \<times> run" where
  "main_nc E = (case main_loop_nc E run0 of (r, d) \<Rightarrow> finally_block_nc E d)"

text \<open>The result of the driver, with the counter forgotten.\<close>

definition without_counter :: "exn option \<times> driver \<Rightarrow> exn option \<times> run" where
  "without_counter res = (fst res, run.truncate (snd res))"

section \<open>Facts about the string functions\<close>

lemma contains_sublist: "contains sub s \<longleftrightarrow> sublist sub s"
  by (induction s) (auto simp: sublist_Cons_right)

lemma split_from_no_sep:
  "\<not> sublist sep s \<Longrightarrow> split_from sep acc s = [acc @ s]"
proof (induction s arbitrary: acc)
  case Nil
  then show ?case by simp
next
  case (Cons c cs)
  then show ?case by (auto simp: sublist_Cons_right)
qed

lemma split_from_nonempty: "split_from sep acc s \<noteq> []"
  by (induction sep acc s rule: split_from.induct) auto

lemma lower_char_idem: "lower_char (lower_char c) = lower_char c"
  by (simp add: lower_char_def upper_letters_def lower_letters_def)

lemma lower_upper_char: "lower_char (upper_char c) = lower_char c"
  by (simp add: lower_char_def upper_char_def upper_letters_def lower_letters_def)

lemma lower_idem: "str_lower (str_lower s) = str_lower s"
  by (simp add: str_lower_def lower_char_idem)

lemma lower_upper: "str_lower (map upper_char s) = str_lower s"
  by (simp add: str_lower_def lower_upper_char)

lemma city_loop_find:
  "city_loop cs d = (case find (\<lambda>c. sublist c d) cs of None \<Rightarrow> '''' | Some c \<Rightarrow> str_title c)"
  by (induction cs) (auto simp: contains_sublist)

lemma title_cities:
  "map str_title cities = [''Karachi'', ''Lahore'', ''Islamabad'', ''Rawalpindi'',
     ''Faisalabad'', ''Multan'', ''Peshawar'', ''Quetta'',
     ''Sialkot'', ''Gujranwala'', ''Hyderabad'', ''Bahawalpur'']"
  by (simp add: cities_def str_title_def is_cased_def upper_char_def lower_char_def
      upper_letters_def lower_letters_def)

section \<open>Claims about the parsing helpers\<close>

text \<open>
  C4, as the code has it. \<open>parse_engine_specs\<close> cuts its input at every occurrence of
  the delimiter \<open>" . "\<close> and strips every part of surrounding whitespace. The input
  \<open>"Petrol . 1300 cc . Automatic"\<close> gives \<open>("Petrol", "1300 cc", "Automatic")\<close>; an
  input of one part leaves \<open>engine_capacity\<close> and \<open>transmission\<close> empty, an input of
  two parts leaves \<open>transmission\<close> empty; an input in which the delimiter does not
  occur gives its own text, stripped of leading and trailing whitespace, as
  \<open>fuel_type\<close> and leaves the other two fields empty.
\<close>

theorem parse_engine_specs_parts:
  "parse_engine_specs ''Petrol . 1300 cc . Automatic'' = (''Petrol'', ''1300 cc'', ''Automatic'')
   \<and> (length (str_split t '' . '') = 1 \<longrightarrow>
        parse_engine_specs t = (str_strip (str_split t '' . '' ! 0), '''', ''''))
   \<and> (length (str_split t '' . '') = 2 \<longrightarrow>
        parse_engine_specs t =
          (str_strip (str_split t '' . '' ! 0), str_strip (str_split t '' . '' ! 1), ''''))
   \<and> (\<not> sublist '' . '' t \<longrightarrow> parse_engine_specs t = (str_strip t, '''', ''''))"
proof -
  have ex: "parse_engine_specs ''Petrol . 1300 cc . Automatic''
      = (''Petrol'', ''1300 cc'', ''Automatic'')"
    by (simp add: parse_engine_specs_def engine_parts_def str_split_def str_strip_def is_space_def Let_def)
  have one: "parse_engine_specs t = (str_strip (str_split t '' . '' ! 0), '''', '''')"
    if "length (str_split t '' . '') = 1"
    using that by (simp add: parse_engine_specs_def engine_parts_def Let_def)
  have two: "parse_engine_specs t
      = (str_strip (str_split t '' . '' ! 0), str_strip (str_split t '' . '' ! 1), '''')"
    if "length (str_split t '' . '') = 2"
    using that by (simp add: parse_engine_specs_def engine_parts_def Let_def)
  have none: "parse_engine_specs t = (str_strip t, '''', '''')" if "\<not> sublist '' . '' t"
  proof -
    from that have "str_split t '' . '' = [t]"
      using split_from_no_sep [of "'' . ''" t "[]"] by (simp add: str_split_def)
    then show ?thesis
      by (simp add: parse_engine_specs_def engine_parts_def Let_def)
  qed
  from ex one two none show ?thesis by blast
qed

theorem parse_engine_specs_parts_witness:
  "length (str_split ''Diesel'' '' . '') = 1 \<and> \<not> sublist '' . '' ''Diesel''
   \<and> length (str_split ''Diesel . 2000 cc'' '' . '') = 2
   \<and> parse_engine_specs ''Diesel'' = (''Diesel'', '''', '''')
   \<and> parse_engine_specs ''Diesel . 2000 cc'' = (''Diesel'', ''2000 cc'', '''')"
proof -
  have a: "str_split ''Diesel'' '' . '' = [''Diesel'']"
    by (simp add: str_split_def)
  have b: "str_split ''Diesel . 2000 cc'' '' . '' = [''Diesel'', ''2000 cc'']"
    by (simp add: str_split_def)
  have c: "\<not> sublist '' . '' ''Diesel''"
    by (simp add: contains_sublist [symmetric])
  have s: "str_strip ''Diesel'' = ''Diesel''" "str_strip ''2000 cc'' = ''2000 cc''"
    by (simp_all add: str_strip_def is_space_def)
  show ?thesis
    using parse_engine_specs_parts [of "''Diesel''"]
      parse_engine_specs_parts [of "''Diesel . 2000 cc''"] a b c s
    by simp
qed

text \<open>
  C4, as the claim words it, fails: an input without the delimiter is not assigned whole
  to \<open>fuel_type\<close> when it starts or ends with whitespace, since every part is
  stripped.
\<close>

theorem parse_engine_specs_whole_counterexample:
  "\<not> sublist '' . '' '' Petrol''
   \<and> parse_engine_specs '' Petrol'' = (''Petrol'', '''', '''')
   \<and> fst (parse_engine_specs '' Petrol'') \<noteq> '' Petrol''"
proof -
  have "\<not> sublist '' . '' '' Petrol''"
    by (simp add: contains_sublist [symmetric])
  moreover have "parse_engine_specs '' Petrol'' = (''Petrol'', '''', '''')"
    by (simp add: parse_engine_specs_def engine_parts_def str_split_def str_strip_def is_space_def Let_def)
  ultimately show ?thesis by simp
qed

text \<open>
  C5. City extraction looks only at the lowercased description: it returns, in title
  case, the first city of the fixed list (Karachi, Lahore, Islamabad, Rawalpindi,
  Faisalabad, Multan, Peshawar, Quetta, Sialkot, Gujranwala, Hyderabad, Bahawalpur) that
  occurs as a substring of the lowercased description, and the empty string when none
  occurs. The result does not change when the description is lowercased or uppercased.
\<close>

theorem extract_city_first_match:
  "extract_city_from_description desc =
     (case find (\<lambda>c. sublist c (str_lower desc)) cities of
        None \<Rightarrow> '''' | Some c \<Rightarrow> str_title c)
   \<and> map str_title cities = [''Karachi'', ''Lahore'', ''Islamabad'', ''Rawalpindi'',
        ''Faisalabad'', ''Multan'', ''Peshawar'', ''Quetta'',
        ''Sialkot'', ''Gujranwala'', ''Hyderabad'', ''Bahawalpur'']
   \<and> extract_city_from_description (str_lower desc) = extract_city_from_description desc
   \<and> extract_city_from_description (map upper_char desc) = extract_city_from_description desc"
  by (simp add: extract_city_from_description_def city_loop_find title_cities
      lower_idem lower_upper)

section \<open>Facts about the extraction\<close>

lemma group3_filter:
  "filter (\<lambda>ch. ch \<noteq> CHR '','') (group3 ds) = filter (\<lambda>ch. ch \<noteq> CHR '','') ds"
proof (induction ds rule: group3.induct)
  case (1 ds)
  show ?case
  proof (cases "length ds \<le> 3")
    case True
    then show ?thesis by (simp add: group3.simps)
  next
    case False
    have "filter (\<lambda>ch. ch \<noteq> CHR '','') (group3 ds) =
        filter (\<lambda>ch. ch \<noteq> CHR '','') (take (length ds - 3) ds)
        @ filter (\<lambda>ch. ch \<noteq> CHR '','') (drop (length ds - 3) ds)"
      using False 1 by (subst group3.simps) simp
    also have "\<dots> = filter (\<lambda>ch. ch \<noteq> CHR '','') ds"
      by (metis filter_append append_take_drop_id)
    finally show ?thesis .
  qed
qed

lemma digit_char_not_comma: "d < 10 \<Longrightarrow> digit_char d \<noteq> CHR '',''"
proof -
  assume "d < 10"
  then have "d \<in> {0, 1, 2, 3, 4, 5, 6, 7, 8, 9}" by auto
  then show ?thesis by (auto simp: digit_char_def)
qed

lemma str_nat_no_comma: "CHR '','' \<notin> set (str_nat n)"
proof (induction n rule: str_nat.induct)
  case (1 n)
  show ?case
  proof (cases "n < 10")
    case True
    then show ?thesis
      using digit_char_not_comma [of n] by (subst str_nat.simps) auto
  next
    case False
    then show ?thesis
      using 1 digit_char_not_comma [of "n mod 10"] by (subst str_nat.simps) auto
  qed
qed

lemma comma_int_digits: "filter (\<lambda>ch. ch \<noteq> CHR '','') (comma_int i) = str_int i"
  by (auto simp: comma_int_def str_int_def group3_filter filter_id_conv str_nat_no_comma)

lemma comma_int_example: "comma_int 1250000 = ''1,250,000''"
  by (simp add: comma_int_def str_nat.simps digit_char_def group3.simps)

lemma spec_step_classify:
  "spec_step item s =
     (case classify item of
        None \<Rightarrow> s
      | Some Mileage \<Rightarrow> s\<lparr>mileage := li_text item\<rparr>
      | Some Color \<Rightarrow> s\<lparr>color := li_text item\<rparr>
      | Some Registration \<Rightarrow> s\<lparr>registered_in := li_text item\<rparr>
      | Some Engine \<Rightarrow> s\<lparr>fuel_type := fst (parse_engine_specs (li_text item)),
           engine_capacity := fst (snd (parse_engine_specs (li_text item))),
           transmission := snd (snd (parse_engine_specs (li_text item)))\<rparr>)"
  by (simp add: spec_step_def classify_def Let_def split: prod.splits)

lemma spec_loop_mileage:
  "mileage (spec_loop items s) =
     (if of_kind Mileage items = [] then mileage s else li_text (last (of_kind Mileage items)))"
  by (induction items arbitrary: s)
     (auto simp: of_kind_def spec_step_classify split: option.splits spec_kind.splits)

lemma spec_loop_color:
  "color (spec_loop items s) =
     (if of_kind Color items = [] then color s else li_text (last (of_kind Color items)))"
  by (induction items arbitrary: s)
     (auto simp: of_kind_def spec_step_classify split: option.splits spec_kind.splits)

lemma spec_loop_registered_in:
  "registered_in (spec_loop items s) =
     (if of_kind Registration items = [] then registered_in s
      else li_text (last (of_kind Registration items)))"
  by (induction items arbitrary: s)
     (auto simp: of_kind_def spec_step_classify split: option.splits spec_kind.splits)

lemma spec_loop_engine:
  "(fuel_type (spec_loop items s), engine_capacity (spec_loop items s),
    transmission (spec_loop items s)) =
     (if of_kind Engine items = [] then (fuel_type s, engine_capacity s, transmission s)
      else parse_engine_specs (li_text (last (of_kind Engine items))))"
  by (induction items arbitrary: s)
     (auto simp: of_kind_def spec_step_classify split: option.splits spec_kind.splits)

lemma build_car_specs:
  assumes "build_car L li data = Inr c" and "specs_ul li = Some items"
  shows "mileage c = mileage (spec_loop items empty_specs)"
    and "color c = color (spec_loop items empty_specs)"
    and "registered_in c = registered_in (spec_loop items empty_specs)"
    and "fuel_type c = fuel_type (spec_loop items empty_specs)"
    and "engine_capacity c = engine_capacity (spec_loop items empty_specs)"
    and "transmission c = transmission (spec_loop items empty_specs)"
  using assms
  by (auto simp: build_car_def and_then_def Let_def specs.extend_def split: sum.splits)

lemma build_car_price:
  assumes "build_car L li (JObj kvs) = Inr c"
    and "map_of kvs ''offers'' = Some (JObj okvs)" and "map_of okvs ''price'' = Some p"
  shows "price c =
     (if is_int_or_float p
      then py_str L (case map_of okvs ''priceCurrency'' of None \<Rightarrow> JStr ''PKR'' | Some cur \<Rightarrow> cur)
           @ '' '' @ format_comma L p
      else py_str L p)"
proof -
  from assms(3) have "okvs \<noteq> []" by auto
  with assms show ?thesis
    by (auto simp: build_car_def and_then_def Let_def specs.extend_def car.fields_def
        split: sum.splits)
qed

lemma listing_loop_skip:
  assumes "script_tag li = None \<or> script_tag li = Some None \<or> script_tag li = Some (Some [])
     \<or> (\<exists>s. script_tag li = Some (Some s) \<and> json_loads L s = None)"
  shows "listing_loop L (pre @ li # post) cars = listing_loop L (pre @ post) cars"
  using assms
  by (induction pre arbitrary: cars) (auto split: option.splits sum.splits)

lemma build_car_civic:
  "build_car lib0 li civic = Inr (specs.extend
      (case specs_ul li of None \<Rightarrow> empty_specs | Some items \<Rightarrow> spec_loop items empty_specs)
      (car.fields ''Civic'' ''PKR 1,250,000'' '''' (JStr ''2015'') (JStr '''')))"
  by (simp add: build_car_def civic_def and_then_def Let_def
      str_strip_def is_space_def extract_city_from_description_def cities_def str_lower_def
      comma_int_def str_int_def str_nat.simps group3.simps digit_char_def)

lemma build_car_on_call:
  "build_car lib0 li on_call = Inr (specs.extend
      (case specs_ul li of None \<Rightarrow> empty_specs | Some items \<Rightarrow> spec_loop items empty_specs)
      (car.fields '''' ''Call'' '''' (JStr '''') (JStr '''')))"
  by (simp add: build_car_def on_call_def and_then_def Let_def
      str_strip_def extract_city_from_description_def cities_def str_lower_def)

section \<open>Claims about the extraction\<close>

text \<open>
  C2. For an extracted listing whose offer object has a price: when the price is a number
  (\<open>isinstance(price, (int, float))\<close>, which in Python also holds of \<open>True\<close> and
  \<open>False\<close>), the price field is the currency as a string, a space, and the price
  formatted with \<open>','\<close>, and the currency is \<open>"PKR"\<close> when the offer object has no
  \<open>priceCurrency\<close> key; otherwise the price field is \<open>str(price)\<close>, which for a
  string is the string itself. For an integer the format with \<open>','\<close> is the decimal
  representation with commas added (1250000 gives \<open>"1,250,000"\<close>).
\<close>

theorem price_field_format:
  assumes "build_car L li (JObj kvs) = Inr c"
    and "map_of kvs ''offers'' = Some (JObj okvs)"
    and "map_of okvs ''price'' = Some p"
  shows "(is_int_or_float p \<longrightarrow>
            price c = py_str L (case map_of okvs ''priceCurrency'' of
                                  None \<Rightarrow> JStr ''PKR'' | Some cur \<Rightarrow> cur)
                      @ '' '' @ format_comma L p)
    \<and> (is_int_or_float p \<and> map_of okvs ''priceCurrency'' = None \<longrightarrow>
            price c = ''PKR '' @ format_comma L p)
    \<and> (\<not> is_int_or_float p \<longrightarrow> price c = py_str L p)
    \<and> (\<forall>s. p = JStr s \<longrightarrow> price c = s)
    \<and> (\<forall>n. p = JInt n \<longrightarrow> format_comma L p = comma_int n
            \<and> filter (\<lambda>ch. ch \<noteq> CHR '','') (comma_int n) = str_int n)
    \<and> comma_int 1250000 = ''1,250,000''"
  using build_car_price [OF assms] comma_int_digits comma_int_example
  by auto

theorem price_field_format_witness:
  "build_car lib0 no_script civic = Inr civic_car \<and> price civic_car = ''PKR 1,250,000''
   \<and> build_car lib0 no_script on_call = Inr on_call_car \<and> price on_call_car = ''Call''"
proof -
  have c1: "build_car lib0 no_script civic = Inr civic_car"
    by (simp add: build_car_civic no_script_def civic_car_def specs.extend_def car.fields_def
        empty_specs_def)
  have c2: "build_car lib0 no_script on_call = Inr on_call_car"
    by (simp add: build_car_on_call no_script_def on_call_car_def specs.extend_def
        car.fields_def empty_specs_def)
  have "price civic_car = ''PKR '' @ format_comma lib0 (JInt 1250000)"
    using price_field_format [of lib0 no_script _ civic_car "[(''price'', JInt 1250000)]"
        "JInt 1250000"] c1
    by (simp add: civic_def)
  moreover have "price on_call_car = ''Call''"
    using price_field_format [of lib0 no_script _ on_call_car
        "[(''price'', JStr ''Call''), (''priceCurrency'', JStr ''USD'')]" "JStr ''Call''"] c2
    by (simp add: on_call_def)
  ultimately show ?thesis
    using c1 c2 by (simp add: comma_int_example)
qed

text \<open>
  C3. A listing container without a structured-data block (no script element, a script
  element without a string or with the empty string) or with one that \<open>json.loads\<close>
  rejects adds no record and raises nothing: the loop over the containers of a page
  gives what it gives without that container, whatever comes before and after it.
\<close>

theorem listing_without_data_skipped:
  assumes "script_tag li = None \<or> script_tag li = Some None \<or> script_tag li = Some (Some [])
     \<or> (\<exists>s. script_tag li = Some (Some s) \<and> json_loads L s = None)"
  shows "listing_loop L (pre @ li # post) cars = listing_loop L (pre @ post) cars
     \<and> listing_loop L [li] cars = Inr cars"
  using listing_loop_skip [OF assms, of pre post cars] listing_loop_skip [OF assms, of "[]" "[]" cars]
  by simp

theorem listing_without_data_skipped_witness:
  "script_tag no_script = None
   \<and> script_tag bad_script = Some (Some ''{oops'') \<and> json_loads lib0 ''{oops'' = None
   \<and> listing_loop lib0 [two_mileages, no_script, two_mileages] []
       = listing_loop lib0 [two_mileages, two_mileages] []
   \<and> listing_loop lib0 [two_mileages, bad_script, two_mileages] []
       = listing_loop lib0 [two_mileages, two_mileages] []
   \<and> listing_loop lib0 [no_script] [] = Inr []
   \<and> listing_loop lib0 [bad_script] [] = Inr []"
proof -
  have a: "script_tag no_script = None"
    by (simp add: no_script_def)
  have b: "script_tag bad_script = Some (Some ''{oops'')" "json_loads lib0 ''{oops'' = None"
    by (simp_all add: bad_script_def lib0_def)
  show ?thesis
    using listing_without_data_skipped [of no_script lib0 "[two_mileages]" "[two_mileages]" "[]"]
      listing_without_data_skipped [of bad_script lib0 "[two_mileages]" "[two_mileages]" "[]"]
      a b
    by simp
qed

text \<open>
  C10. In an emitted record, each field filled from the spec list holds what the last
  item of its kind in document order gives: \<open>mileage\<close>, \<open>color\<close> and
  \<open>registered_in\<close> hold the text of the last item classified under \<open>pw-mileage\<close>,
  \<open>pw-color\<close> and \<open>pw-registration\<close>; \<open>fuel_type\<close>, \<open>engine_capacity\<close> and
  \<open>transmission\<close> hold the three parts of the text of the last item classified under
  \<open>pw-engine\<close>. An earlier item of the same kind leaves no trace.
\<close>

theorem last_spec_item_wins:
  assumes "build_car L li data = Inr c" and "specs_ul li = Some items"
  shows "(of_kind Mileage items \<noteq> [] \<longrightarrow>
            mileage c = li_text (last (of_kind Mileage items)))
    \<and> (of_kind Color items \<noteq> [] \<longrightarrow> color c = li_text (last (of_kind Color items)))
    \<and> (of_kind Registration items \<noteq> [] \<longrightarrow>
            registered_in c = li_text (last (of_kind Registration items)))
    \<and> (of_kind Engine items \<noteq> [] \<longrightarrow>
            (fuel_type c, engine_capacity c, transmission c)
              = parse_engine_specs (li_text (last (of_kind Engine items))))"
  using build_car_specs [OF assms] spec_loop_mileage [of items empty_specs]
    spec_loop_color [of items empty_specs] spec_loop_registered_in [of items empty_specs]
    spec_loop_engine [of items empty_specs]
  by simp

theorem last_spec_item_wins_witness:
  "\<exists>c. build_car lib0 two_mileages civic = Inr c
     \<and> specs_ul two_mileages = Some spec_items
     \<and> length (of_kind Mileage spec_items) = 2
     \<and> of_kind Engine spec_items \<noteq> []
     \<and> mileage c = ''25,000 km''
     \<and> (fuel_type c, engine_capacity c, transmission c) = (''Petrol'', ''1300 cc'', '''')"
proof -
  obtain c where c: "build_car lib0 two_mileages civic = Inr c"
    by (simp add: build_car_civic)
  have items: "specs_ul two_mileages = Some spec_items"
    by (simp add: two_mileages_def)
  have m: "of_kind Mileage spec_items =
     [\<lparr>icon_class = Some [''icon'', ''pw-mileage''], li_text = ''10,000 km''\<rparr>,
      \<lparr>icon_class = Some [''pw-mileage-alt''], li_text = ''25,000 km''\<rparr>]"
    by (simp add: spec_items_def of_kind_def classify_def classes_of_def)
  have e: "of_kind Engine spec_items =
     [\<lparr>icon_class = Some [''pw-engine''], li_text = ''Petrol . 1300 cc''\<rparr>]"
    by (simp add: spec_items_def of_kind_def classify_def classes_of_def)
  have p: "parse_engine_specs ''Petrol . 1300 cc'' = (''Petrol'', ''1300 cc'', '''')"
    by (simp add: parse_engine_specs_def engine_parts_def str_split_def str_strip_def
        is_space_def Let_def)
  show ?thesis
    using last_spec_item_wins [OF c items] c items m e p
    by auto
qed

section \<open>Facts about fetching and the driver\<close>

lemma upt5: "[0..<MAX_RETRIES] = [0, 1, 2, 3, 4]"
  by (simp add: MAX_RETRIES_def upt_rec)

lemma attempt_retry:
  assumes "session_get E pg (20 + a * 10) = Raises Timeout
      \<or> session_get E pg (20 + a * 10) = Raises RequestException"
    and "a < 4" and "\<not> sleep_interrupted E (length (slept w))"
  shows "attempts_loop E pg (a # rest) w =
     attempts_loop E pg rest
       (w\<lparr>requests := requests w @ [(pg, 20 + a * 10)], slept := slept w @ [of_nat (2 * 2 ^ a)]\<rparr>)"
  using assms
  by (auto simp: try_body_def Let_def time_sleep_def MAX_RETRIES_def BASE_DELAY_def)

lemma attempt_last_fail:
  assumes "session_get E pg 60 = Raises Timeout \<or> session_get E pg 60 = Raises RequestException"
  shows "attempts_loop E pg [4] w = (Inr [], w\<lparr>requests := requests w @ [(pg, 60)]\<rparr>)"
  using assms
  by (auto simp: try_body_def Let_def MAX_RETRIES_def)

lemma attempt_success:
  assumes "session_get E pg (20 + a * 10) = Returns resp"
    and "\<not> (400 \<le> status_code resp \<and> status_code resp < 600)"
    and "listing_loop (lib E) (listings resp) [] = Inr cars"
  shows "attempts_loop E pg (a # rest) w = (Inr cars, w\<lparr>requests := requests w @ [(pg, 20 + a * 10)]\<rparr>)"
  using assms
  by (auto simp: try_body_def Let_def)

lemma four_retries:
  assumes fails: "\<forall>a<4. session_get E pg (20 + a * 10) = Raises Timeout
      \<or> session_get E pg (20 + a * 10) = Raises RequestException"
    and quiet: "\<forall>i<4. \<not> sleep_interrupted E (length (slept w) + i)"
  shows "scrape_page E pg w = attempts_loop E pg [4]
     (w\<lparr>requests := requests w @ [(pg, 20), (pg, 30), (pg, 40), (pg, 50)],
        slept := slept w @ [2, 4, 8, 16]\<rparr>)"
proof -
  have f0: "session_get E pg (20 + 0 * 10) = Raises Timeout \<or> session_get E pg (20 + 0 * 10) = Raises RequestException"
    and f1: "session_get E pg (20 + 1 * 10) = Raises Timeout \<or> session_get E pg (20 + 1 * 10) = Raises RequestException"
    and f2: "session_get E pg (20 + 2 * 10) = Raises Timeout \<or> session_get E pg (20 + 2 * 10) = Raises RequestException"
    and f3: "session_get E pg (20 + 3 * 10) = Raises Timeout \<or> session_get E pg (20 + 3 * 10) = Raises RequestException"
    using fails [rule_format, of 0] fails [rule_format, of 1] fails [rule_format, of 2]
      fails [rule_format, of 3] by simp_all
  have q0: "\<not> sleep_interrupted E (length (slept w))"
    and q1: "\<not> sleep_interrupted E (Suc (length (slept w)))"
    and q2: "\<not> sleep_interrupted E (Suc (Suc (length (slept w))))"
    and q3: "\<not> sleep_interrupted E (Suc (Suc (Suc (length (slept w)))))"
    using quiet [rule_format, of 0] quiet [rule_format, of 1] quiet [rule_format, of 2]
      quiet [rule_format, of 3] by (simp_all add: numeral_eq_Suc)
  show ?thesis
    unfolding scrape_page_def upt5
    using f0 f1 f2 f3 q0 q1 q2 q3
    by (simp del: attempts_loop.simps add: attempt_retry)
qed

lemma attempts_loop_files: "files (snd (attempts_loop E pg as w)) = files w"
  by (induction as arbitrary: w)
     (auto simp: try_body_def Let_def time_sleep_def split: prod.splits sum.splits get_outcome.splits option.splits)

lemma scrape_page_files: "scrape_page E pg w = (r, w1) \<Longrightarrow> files w1 = files w"
  using attempts_loop_files [of E pg "[0..<MAX_RETRIES]" w] by (simp add: scrape_page_def)

lemma backup_not_final: "backup_file pg \<noteq> final_file"
  by (simp add: backup_file_def final_file_def)

lemma loop_body_empty:
  assumes "scrape_page E (page d) (world d) = (Inr [], w1)"
  shows "loop_body E d =
     (if sleep_interrupted E (length (slept w1)) then Some KeyboardInterrupt else None,
      d\<lparr>world := w1\<lparr>slept := slept w1 @ [2]\<rparr>,
        consecutive_empty := consecutive_empty d + 1, page := page d + 1\<rparr>)"
  using assms by (simp add: loop_body_def Let_def time_sleep_def)

lemma loop_body_records:
  assumes "scrape_page E (page d) (world d) = (Inr cars, w1)" and "cars \<noteq> []"
    and "page d mod SAVE_INTERVAL \<noteq> 0"
  shows "loop_body E d =
     (if sleep_interrupted E (length (slept w1)) then Some KeyboardInterrupt else None,
      d\<lparr>world := w1\<lparr>slept := slept w1 @ [3 / 2]\<rparr>, consecutive_empty := 0,
        all_cars := all_cars d @ cars, page := page d + 1\<rparr>)"
  using assms by (simp add: loop_body_def Let_def time_sleep_def)

lemma loop_body_checkpoint:
  assumes "scrape_page E (page d) (world d) = (Inr cars, w1)" and "cars \<noteq> []"
    and "page d mod SAVE_INTERVAL = 0" and "open_raises E (backup_file (page d)) = None"
  shows "loop_body E d =
     (if sleep_interrupted E (length (slept w1)) then Some KeyboardInterrupt else None,
      d\<lparr>world := w1\<lparr>files := files w1 @ [(backup_file (page d), csv_rows (all_cars d @ cars))],
                   slept := slept w1 @ [3 / 2]\<rparr>,
        consecutive_empty := 0, all_cars := all_cars d @ cars, page := page d + 1\<rparr>)"
  using assms by (simp add: loop_body_def Let_def time_sleep_def save_to_csv_def)

lemma loop_body_final_files:
  "filter (\<lambda>(n, rows). n = final_file) (files (world (snd (loop_body E d))))
     = filter (\<lambda>(n, rows). n = final_file) (files (world d))"
proof -
  obtain r w1 where s: "scrape_page E (page d) (world d) = (r, w1)"
    by (cases "scrape_page E (page d) (world d)")
  from scrape_page_files [OF s] show ?thesis
    using s
    by (auto simp: loop_body_def Let_def time_sleep_def save_to_csv_def backup_not_final
        split: prod.splits sum.splits option.splits if_splits)
qed

lemma main_loop_final_files:
  "filter (\<lambda>(n, rows). n = final_file) (files (world (snd (main_loop E d))))
     = filter (\<lambda>(n, rows). n = final_file) (files (world d))"
proof (induction E d rule: main_loop.induct)
  case (1 E d)
  show ?case
  proof (cases "page d \<le> MAX_PAGES")
    case False
    then show ?thesis by (simp add: main_loop.simps)
  next
    case True
    obtain r d' where b: "loop_body E d = (r, d')"
      by (cases "loop_body E d")
    show ?thesis
    proof (cases r)
      case None
      with True b have "main_loop E d = main_loop E d'"
        by (simp add: main_loop.simps)
      moreover from 1 [OF True b [symmetric] None]
      have "filter (\<lambda>(n, rows). n = final_file) (files (world (snd (main_loop E d'))))
        = filter (\<lambda>(n, rows). n = final_file) (files (world d'))" .
      ultimately show ?thesis
        using loop_body_final_files [of E d] b by simp
    next
      case (Some e)
      with True b have "main_loop E d = (Some e, d')"
        by (simp add: main_loop.simps)
      then show ?thesis
        using loop_body_final_files [of E d] b by simp
    qed
  qed
qed

section \<open>Claims about fetching and the sleeps\<close>

lemma build_blank_car: "build_car lib0 plain_listing (JObj []) = Inr blank_car"
  by (simp add: build_car_def and_then_def Let_def plain_listing_def blank_car_def
      specs.extend_def car.fields_def empty_specs_def str_strip_def
      extract_city_from_description_def cities_def str_lower_def)

lemma listing_loop_plain: "listing_loop lib0 [plain_listing] [] = Inr [blank_car]"
  using build_blank_car by (simp add: plain_listing_def lib0_def)

text \<open>
  C1. When \<open>session.get\<close> raises a timeout or another request exception on each of
  the first four attempts for a page, and nobody interrupts the waits: if the fifth
  attempt returns a response without an error status, \<open>scrape_page\<close> returns the
  records extracted from it, and if the fifth attempt raises a timeout or request
  exception too, it returns the empty list. In both cases it has sent exactly five
  requests (with timeouts 20, 30, 40, 50, 60) and has slept 2, 4, 8 and 16 seconds, that
  is \<open>BASE_DELAY * 2 ^ i\<close> after the failed attempt \<open>i < 4\<close>, and not after the
  fifth.
\<close>

theorem scrape_page_retry_policy:
  assumes fails: "\<forall>a<4. session_get E pg (20 + a * 10) = Raises Timeout
      \<or> session_get E pg (20 + a * 10) = Raises RequestException"
    and quiet: "\<forall>i<4. \<not> sleep_interrupted E (length (slept w) + i)"
  shows "(session_get E pg 60 = Returns resp
          \<and> \<not> (400 \<le> status_code resp \<and> status_code resp < 600)
          \<and> listing_loop (lib E) (listings resp) [] = Inr cars \<longrightarrow>
            scrape_page E pg w =
              (Inr cars, w\<lparr>requests := requests w @ [(pg, 20), (pg, 30), (pg, 40), (pg, 50), (pg, 60)],
                           slept := slept w @ [2, 4, 8, 16]\<rparr>))
    \<and> (session_get E pg 60 = Raises Timeout \<or> session_get E pg 60 = Raises RequestException \<longrightarrow>
            scrape_page E pg w =
              (Inr [], w\<lparr>requests := requests w @ [(pg, 20), (pg, 30), (pg, 40), (pg, 50), (pg, 60)],
                         slept := slept w @ [2, 4, 8, 16]\<rparr>))
    \<and> map (\<lambda>i. of_nat (BASE_DELAY * 2 ^ i)) [0..<4] = [2, 4, 8, 16 :: rat]"
proof (intro conjI impI)
  assume ok: "session_get E pg 60 = Returns resp
      \<and> \<not> (400 \<le> status_code resp \<and> status_code resp < 600)
      \<and> listing_loop (lib E) (listings resp) [] = Inr cars"
  then have "session_get E pg (20 + 4 * 10) = Returns resp" by simp
  from attempt_success [OF this] ok
  show "scrape_page E pg w =
      (Inr cars, w\<lparr>requests := requests w @ [(pg, 20), (pg, 30), (pg, 40), (pg, 50), (pg, 60)],
                   slept := slept w @ [2, 4, 8, 16]\<rparr>)"
    by (simp add: four_retries [OF fails quiet])
next
  assume "session_get E pg 60 = Raises Timeout \<or> session_get E pg 60 = Raises RequestException"
  from attempt_last_fail [OF this]
  show "scrape_page E pg w =
      (Inr [], w\<lparr>requests := requests w @ [(pg, 20), (pg, 30), (pg, 40), (pg, 50), (pg, 60)],
                 slept := slept w @ [2, 4, 8, 16]\<rparr>)"
    by (simp add: four_retries [OF fails quiet])
next
  show "map (\<lambda>i. of_nat (BASE_DELAY * 2 ^ i)) [0..<4] = [2, 4, 8, 16 :: rat]"
    by (simp add: BASE_DELAY_def upt_rec)
qed

theorem scrape_page_retry_policy_witness:
  "scrape_page (env_of slow_site) 7 world0 =
     (Inr [blank_car], \<lparr>requests = [(7, 20), (7, 30), (7, 40), (7, 50), (7, 60)],
                        slept = [2, 4, 8, 16], files = []\<rparr>)
   \<and> scrape_page (env_of dead_site) 7 world0 =
     (Inr [], \<lparr>requests = [(7, 20), (7, 30), (7, 40), (7, 50), (7, 60)],
               slept = [2, 4, 8, 16], files = []\<rparr>)"
  using scrape_page_retry_policy [of "env_of slow_site" 7 world0
      "\<lparr>status_code = 200, listings = [plain_listing]\<rparr>" "[blank_car]"]
    scrape_page_retry_policy [of "env_of dead_site" 7 world0]
    listing_loop_plain
  by (simp add: env_of_def slow_site_def dead_site_def ok_page_def world0_def)

text \<open>
  C8, as the code has it. After a page without records the driver sleeps 2 seconds;
  after a page with records (and its checkpoint, when one is due and can be written) it
  sleeps 1.5 seconds, which is the shorter of the two intervals.
\<close>

theorem driver_sleep_intervals:
  assumes "scrape_page E (page d) (world d) = (Inr cars, w1)"
  shows "(cars = [] \<longrightarrow> slept (world (snd (loop_body E d))) = slept w1 @ [2])
    \<and> (cars \<noteq> [] \<and> (page d mod SAVE_INTERVAL = 0 \<longrightarrow> open_raises E (backup_file (page d)) = None)
         \<longrightarrow> slept (world (snd (loop_body E d))) = slept w1 @ [3 / 2])
    \<and> (3 / 2 :: rat) < 2"
proof (intro conjI impI)
  assume "cars = []"
  with assms show "slept (world (snd (loop_body E d))) = slept w1 @ [2]"
    by (simp add: loop_body_empty)
next
  assume c: "cars \<noteq> [] \<and> (page d mod SAVE_INTERVAL = 0 \<longrightarrow> open_raises E (backup_file (page d)) = None)"
  show "slept (world (snd (loop_body E d))) = slept w1 @ [3 / 2]"
  proof (cases "page d mod SAVE_INTERVAL = 0")
    case True
    with c assms show ?thesis by (simp add: loop_body_checkpoint)
  next
    case False
    with c assms show ?thesis by (simp add: loop_body_records)
  qed
next
  show "(3 / 2 :: rat) < 2" by simp
qed

lemma scrape_two_pages_1: "scrape_page (env_of two_pages) 1 w = (Inr [blank_car], w\<lparr>requests := requests w @ [(1, 20)]\<rparr>)"
  using attempt_success [of "env_of two_pages" 1 0 "\<lparr>status_code = 200, listings = [plain_listing]\<rparr>" "[blank_car]" "[1,2,3,4]" w]
    listing_loop_plain
  by (simp add: scrape_page_def upt5 env_of_def two_pages_def ok_page_def del: attempts_loop.simps)

lemma scrape_two_pages_2: "scrape_page (env_of two_pages) 2 w = (Inr [], w\<lparr>requests := requests w @ [(2, 20)]\<rparr>)"
  using attempt_success [of "env_of two_pages" 2 0 "\<lparr>status_code = 200, listings = []\<rparr>" "[]" "[1,2,3,4]" w]
  by (simp add: scrape_page_def upt5 env_of_def two_pages_def empty_page_def del: attempts_loop.simps)

theorem driver_sleep_intervals_witness:
  "scrape_page (env_of two_pages) (page driver0) (world driver0) = (Inr [blank_car], world0\<lparr>requests := [(1, 20)]\<rparr>)
   \<and> slept (world (snd (loop_body (env_of two_pages) driver0))) = [3 / 2]
   \<and> slept (world (snd (loop_body (env_of two_pages) (driver0\<lparr>page := 2\<rparr>)))) = [2]"
  using driver_sleep_intervals [of "env_of two_pages" driver0 "[blank_car]" "world0\<lparr>requests := [(1, 20)]\<rparr>"]
    driver_sleep_intervals [of "env_of two_pages" "driver0\<lparr>page := 2\<rparr>" "[]" "world0\<lparr>requests := [(2, 20)]\<rparr>"]
    scrape_two_pages_1 [of world0] scrape_two_pages_2 [of world0]
  by (simp add: driver0_def world0_def SAVE_INTERVAL_def)

text \<open>
  C8, as the claim words it, fails: the sleep after a page with records (1.5 seconds) is
  not longer than the sleep after a page without records (2 seconds).
\<close>

theorem longer_sleep_counterexample:
  "slept (world (snd (loop_body (env_of two_pages) driver0))) = [3 / 2]
   \<and> slept (world (snd (loop_body (env_of two_pages) (driver0\<lparr>page := 2\<rparr>)))) = [2]
   \<and> \<not> ((2 :: rat) < 3 / 2)"
  using scrape_two_pages_1 [of world0] scrape_two_pages_2 [of world0]
  by (simp add: loop_body_def Let_def time_sleep_def driver0_def world0_def SAVE_INTERVAL_def
      blank_car_def)

section \<open>Claims about the files\<close>

lemma env_of_sel [simp]:
  "lib (env_of g) = lib0" "session_get (env_of g) = g"
  "sleep_interrupted (env_of g) n = False" "open_raises (env_of g) name = None"
  by (simp_all add: env_of_def)

lemma files_driver0: "files (world driver0) = []"
  by (simp add: driver0_def world0_def)

text \<open>
  C7. Whatever ends the loop (the page limit, an interrupt, or an exception), and
  provided the final file can be opened for writing: \<open>main\<close> writes the final file if
  and only if the collection is not empty at that point, it writes it once, and the file
  consists of the header row followed by one row per record in the order of the
  collection. With an empty collection no final file is written.
\<close>

theorem final_file_iff_collected:
  assumes "open_raises E final_file = None"
  shows "fst (main E) = None
    \<and> all_cars (snd (main E)) = all_cars (snd (main_loop E driver0))
    \<and> ((\<exists>rows. (final_file, rows) \<in> set (files (world (snd (main E)))))
          \<longleftrightarrow> all_cars (snd (main_loop E driver0)) \<noteq> [])
    \<and> filter (\<lambda>(n, rows). n = final_file) (files (world (snd (main E)))) =
        (if all_cars (snd (main_loop E driver0)) = [] then []
         else [(final_file, map JStr fieldnames # map row_of (all_cars (snd (main_loop E driver0))))])"
proof -
  obtain r d where l: "main_loop E driver0 = (r, d)"
    by (cases "main_loop E driver0")
  have none: "filter (\<lambda>(n, rows). n = final_file) (files (world d)) = []"
    using main_loop_final_files [of E driver0] l by (simp add: files_driver0)
  then have notin: "\<And>rows. (final_file, rows) \<notin> set (files (world d))"
    by (auto simp: filter_empty_conv)
  show ?thesis
  proof (cases "all_cars d = []")
    case True
    then have "main E = (None, d)"
      by (simp add: main_def l finally_block_def)
    with True none notin l show ?thesis by simp
  next
    case False
    then have "main E = (None, d\<lparr>world := (world d)\<lparr>files := files (world d)
        @ [(final_file, csv_rows (all_cars d))]\<rparr>\<rparr>)"
      using assms by (simp add: main_def l finally_block_def save_to_csv_def)
    with False none l show ?thesis by (auto simp: csv_rows_def)
  qed
qed

lemma scrape_interrupted_ok:
  "pg < n \<Longrightarrow> scrape_page (env_of (interrupted_at n)) pg w = (Inr [blank_car], w\<lparr>requests := requests w @ [(pg, 20)]\<rparr>)"
  using attempt_success [of "env_of (interrupted_at n)" pg 0 "\<lparr>status_code = 200, listings = [plain_listing]\<rparr>" "[blank_car]" "[1,2,3,4]" w]
    listing_loop_plain
  by (simp add: scrape_page_def upt5 env_of_def interrupted_at_def ok_page_def del: attempts_loop.simps)

lemma scrape_interrupted_ki:
  "\<not> pg < n \<Longrightarrow> scrape_page (env_of (interrupted_at n)) pg w = (Inl KeyboardInterrupt, w\<lparr>requests := requests w @ [(pg, 20)]\<rparr>)"
  by (simp add: scrape_page_def upt5 env_of_def interrupted_at_def try_body_def Let_def)

lemma main_loop_interrupted_2:
  "main_loop (env_of (interrupted_at 2)) driver0 =
    (Some KeyboardInterrupt, \<lparr>all_cars = [blank_car], page = 2,
       world = \<lparr>requests = [(1, 20), (2, 20)], slept = [3 / 2], files = []\<rparr>, consecutive_empty = 0\<rparr>)"
  apply (subst main_loop.simps)
  apply (simp add: driver0_def world0_def MAX_PAGES_def loop_body_def scrape_interrupted_ok Let_def SAVE_INTERVAL_def time_sleep_def blank_car_def)
  apply (subst main_loop.simps)
  apply (simp add: MAX_PAGES_def loop_body_def scrape_interrupted_ki Let_def)
  done

lemma main_loop_interrupted_1:
  "main_loop (env_of (interrupted_at 1)) driver0 =
    (Some KeyboardInterrupt, \<lparr>all_cars = [], page = 1,
       world = \<lparr>requests = [(1, 20)], slept = [], files = []\<rparr>, consecutive_empty = 0\<rparr>)"
  apply (subst main_loop.simps)
  apply (simp add: driver0_def world0_def MAX_PAGES_def loop_body_def scrape_interrupted_ki Let_def)
  done

theorem final_file_iff_collected_witness:
  "open_raises (env_of (interrupted_at 2)) final_file = None
   \<and> fst (main_loop (env_of (interrupted_at 2)) driver0) = Some KeyboardInterrupt
   \<and> files (world (snd (main (env_of (interrupted_at 2))))) =
        [(final_file, [map JStr fieldnames, row_of blank_car])]
   \<and> fst (main_loop (env_of (interrupted_at 1)) driver0) = Some KeyboardInterrupt
   \<and> files (world (snd (main (env_of (interrupted_at 1))))) = []"
proof -
  have o: "open_raises (env_of (interrupted_at 2)) final_file = None"
    "open_raises (env_of (interrupted_at 1)) final_file = None"
    by simp_all
  have "files (world (snd (main (env_of (interrupted_at 2))))) =
        [(final_file, [map JStr fieldnames, row_of blank_car])]"
    by (simp add: main_def main_loop_interrupted_2 finally_block_def save_to_csv_def
        csv_rows_def)
  moreover have "files (world (snd (main (env_of (interrupted_at 1))))) = []"
    using main_loop_interrupted_1 by (simp add: main_def finally_block_def)
  ultimately show ?thesis
    using final_file_iff_collected [OF o(1)] final_file_iff_collected [OF o(2)] o
      main_loop_interrupted_1 main_loop_interrupted_2
    by simp
qed

lemma main_loop_passes:
  "main_loop E d =
     (case passes n E d of (Some e, d') \<Rightarrow> (Some e, d') | (None, d') \<Rightarrow> main_loop E d')"
proof (induction n)
  case 0
  show ?case by simp
next
  case (Suc n)
  obtain r d' where p: "passes n E d = (r, d')"
    by (cases "passes n E d")
  show ?case
  proof (cases r)
    case (Some e)
    with p Suc show ?thesis by simp
  next
    case None
    with p Suc have "main_loop E d = main_loop E d'" by simp
    also have "\<dots> = (case passes (Suc n) E d of
        (Some e, d'') \<Rightarrow> (Some e, d'') | (None, d'') \<Rightarrow> main_loop E d'')"
      using p None by (subst main_loop.simps) (auto simp: main_loop.simps split: prod.splits option.splits)
    finally show ?thesis .
  qed
qed

lemma passes_before_checkpoint:
  assumes rec: "\<forall>k<n. page_records E k \<noteq> []"
    and quiet: "\<forall>i. \<not> sleep_interrupted E i"
    and n: "n < 20"
  shows "fst (passes n E driver0) = None
    \<and> page (snd (passes n E driver0)) = Suc n
    \<and> all_cars (snd (passes n E driver0)) = concat (map (page_records E) [0..<n])
    \<and> files (world (snd (passes n E driver0))) = []"
  using rec n
proof (induction n)
  case 0
  show ?case by (simp add: driver0_def world0_def)
next
  case (Suc n)
  then have ih: "fst (passes n E driver0) = None"
    "page (snd (passes n E driver0)) = Suc n"
    "all_cars (snd (passes n E driver0)) = concat (map (page_records E) [0..<n])"
    "files (world (snd (passes n E driver0))) = []"
    by simp_all
  obtain d where d: "passes n E driver0 = (None, d)"
    using ih(1) by (cases "passes n E driver0") simp
  obtain r w1 where s: "scrape_page E (page d) (world d) = (r, w1)"
    by (cases "scrape_page E (page d) (world d)")
  from Suc.prems have "page_records E n \<noteq> []" by simp
  then obtain cars where r: "r = Inr cars" and cars: "cars = page_records E n" "cars \<noteq> []"
    using s d ih(2) by (auto simp: page_records_def split: sum.splits)
  have m: "page d mod SAVE_INTERVAL \<noteq> 0"
    using ih(2) d Suc.prems(2) by (simp add: SAVE_INTERVAL_def)
  have le: "page d \<le> MAX_PAGES"
    using ih(2) d Suc.prems(2) by (simp add: MAX_PAGES_def)
  have f: "files w1 = []"
    using scrape_page_files [OF s] ih(4) d by simp
  have "passes (Suc n) E driver0 = loop_body E d"
    using d le by simp
  also have "\<dots> = (None, d\<lparr>world := w1\<lparr>slept := slept w1 @ [3 / 2]\<rparr>, consecutive_empty := 0,
        all_cars := all_cars d @ cars, page := page d + 1\<rparr>)"
    using loop_body_records [OF s [unfolded r] cars(2) m] quiet by simp
  finally show ?case
    using ih d cars f by simp
qed

lemma backup_file_20: "backup_file 20 = ''pakwheels_cars_backup_page20.csv''"
  by (simp add: backup_file_def str_nat.simps digit_char_def)

text \<open>
  C6. When each of the pages 1 to 20 yields at least one record, no sleep is interrupted
  and the backup file can be opened: after the twentieth pass through the loop exactly
  one file has been written, \<open>pakwheels_cars_backup_page20.csv\<close>, holding the header
  row and one row for every record of the pages 1 to 20 in the order in which they were
  appended to the collection; the run goes on from that state.
\<close>

theorem checkpoint_after_twenty_pages:
  assumes rec: "\<forall>k<20. page_records E k \<noteq> []"
    and quiet: "\<forall>i. \<not> sleep_interrupted E i"
    and disk: "open_raises E (backup_file 20) = None"
  shows "files (world (snd (passes 20 E driver0))) =
       [(''pakwheels_cars_backup_page20.csv'',
         map JStr fieldnames # map row_of (concat (map (page_records E) [0..<20])))]
    \<and> all_cars (snd (passes 20 E driver0)) = concat (map (page_records E) [0..<20])
    \<and> main_loop E driver0 = main_loop E (snd (passes 20 E driver0))"
proof -
  have rec19: "\<forall>k<19. page_records E k \<noteq> []"
    using rec by simp
  from passes_before_checkpoint [OF rec19 quiet]
  have ih: "fst (passes 19 E driver0) = None"
    "page (snd (passes 19 E driver0)) = 20"
    "all_cars (snd (passes 19 E driver0)) = concat (map (page_records E) [0..<19])"
    "files (world (snd (passes 19 E driver0))) = []"
    by simp_all
  obtain d where d: "passes 19 E driver0 = (None, d)"
    using ih(1) by (cases "passes 19 E driver0") simp
  obtain r w1 where s: "scrape_page E (page d) (world d) = (r, w1)"
    by (cases "scrape_page E (page d) (world d)")
  from rec have "page_records E 19 \<noteq> []" by simp
  then obtain cars where r: "r = Inr cars" and cars: "cars = page_records E 19" "cars \<noteq> []"
    using s d ih(2) by (auto simp: page_records_def split: sum.splits)
  have m: "page d mod SAVE_INTERVAL = 0"
    using ih(2) d by (simp add: SAVE_INTERVAL_def)
  have le: "page d \<le> MAX_PAGES"
    using ih(2) d by (simp add: MAX_PAGES_def)
  have f: "files w1 = []"
    using scrape_page_files [OF s] ih(4) d by simp
  have o: "open_raises E (backup_file (page d)) = None"
    using disk ih(2) d by simp
  have e: "(20 :: nat) = Suc 19"
    by simp
  have "passes 20 E driver0 = loop_body E d"
    by (subst e, subst passes.simps(2)) (simp add: d le)
  also have "\<dots> = (None,
      d\<lparr>world := w1\<lparr>files := files w1 @ [(backup_file (page d), csv_rows (all_cars d @ cars))],
                   slept := slept w1 @ [3 / 2]\<rparr>,
        consecutive_empty := 0, all_cars := all_cars d @ cars, page := page d + 1\<rparr>)"
    using loop_body_checkpoint [OF s [unfolded r] cars(2) m o] quiet by simp
  finally have p20: "passes 20 E driver0 = (None,
      d\<lparr>world := w1\<lparr>files := files w1 @ [(backup_file (page d), csv_rows (all_cars d @ cars))],
                   slept := slept w1 @ [3 / 2]\<rparr>,
        consecutive_empty := 0, all_cars := all_cars d @ cars, page := page d + 1\<rparr>)" .
  have c20: "concat (map (page_records E) [0..<20]) = all_cars d @ cars"
    using ih(3) d cars(1) upt_Suc_append [of 0 19] by simp
  have "main_loop E driver0 = main_loop E (snd (passes 20 E driver0))"
    using main_loop_passes [of E driver0 20] p20 by simp
  then show ?thesis
    using p20 c20 f ih(2) d by (simp add: backup_file_20 csv_rows_def)
qed

lemma scrape_always_ok:
  "scrape_page (env_of always_ok) pg w = (Inr [blank_car], w\<lparr>requests := requests w @ [(pg, 20)]\<rparr>)"
  using attempt_success [of "env_of always_ok" pg 0 "\<lparr>status_code = 200, listings = [plain_listing]\<rparr>" "[blank_car]" "[1,2,3,4]" w]
    listing_loop_plain
  by (simp add: scrape_page_def upt5 always_ok_def ok_page_def del: attempts_loop.simps)

lemma page_records_always_ok: "page_records (env_of always_ok) = (\<lambda>k. [blank_car])"
  by (rule ext) (simp add: page_records_def scrape_always_ok)

theorem checkpoint_after_twenty_pages_witness:
  "(\<forall>k. page_records (env_of always_ok) k = [blank_car])
   \<and> (\<forall>i. \<not> sleep_interrupted (env_of always_ok) i)
   \<and> open_raises (env_of always_ok) (backup_file 20) = None
   \<and> files (world (snd (passes 20 (env_of always_ok) driver0))) =
       [(''pakwheels_cars_backup_page20.csv'',
         map JStr fieldnames # map row_of (concat (map (\<lambda>k. [blank_car]) [0..<20])))]"
  using checkpoint_after_twenty_pages [of "env_of always_ok"]
  by (simp add: page_records_always_ok)

section \<open>The counter of empty pages\<close>

lemma truncate_sel [simp]:
  "all_cars (run.truncate d) = all_cars d" "page (run.truncate d) = page d"
  "world (run.truncate d) = world d"
  by (simp_all add: run.truncate_def)

lemma truncate_upd [simp]:
  "run.truncate (d\<lparr>world := w\<rparr>) = (run.truncate d)\<lparr>world := w\<rparr>"
  "run.truncate (d\<lparr>page := p\<rparr>) = (run.truncate d)\<lparr>page := p\<rparr>"
  "run.truncate (d\<lparr>all_cars := cs\<rparr>) = (run.truncate d)\<lparr>all_cars := cs\<rparr>"
  "run.truncate (d\<lparr>consecutive_empty := c\<rparr>) = run.truncate d"
  by (simp_all add: run.truncate_def)

lemma loop_body_without_counter:
  "without_counter (loop_body E d) = loop_body_nc E (run.truncate d)"
  by (auto simp: without_counter_def loop_body_def loop_body_nc_def Let_def
      split: prod.splits sum.splits option.splits)

lemma main_loop_without_counter:
  "without_counter (main_loop E d) = main_loop_nc E (run.truncate d)"
proof (induction E d rule: main_loop.induct)
  case (1 E d)
  show ?case
  proof (cases "page d \<le> MAX_PAGES")
    case False
    then show ?thesis
      by (simp add: main_loop.simps main_loop_nc.simps without_counter_def)
  next
    case True
    obtain r d' where b: "loop_body E d = (r, d')"
      by (cases "loop_body E d")
    then have bn: "loop_body_nc E (run.truncate d) = (r, run.truncate d')"
      using loop_body_without_counter [of E d] by (simp add: without_counter_def)
    show ?thesis
    proof (cases r)
      case None
      from 1 [OF True b [symmetric] None]
      have "without_counter (main_loop E d') = main_loop_nc E (run.truncate d')" .
      moreover have "main_loop E d = main_loop E d'"
        using True b None by (simp add: main_loop.simps)
      moreover have "main_loop_nc E (run.truncate d) = main_loop_nc E (run.truncate d')"
        using True bn None by (subst main_loop_nc.simps) simp
      ultimately show ?thesis by simp
    next
      case (Some e)
      have "main_loop E d = (Some e, d')"
        using True b Some by (simp add: main_loop.simps)
      moreover have "main_loop_nc E (run.truncate d) = (Some e, run.truncate d')"
        using True bn Some by (subst main_loop_nc.simps) simp
      ultimately show ?thesis by (simp add: without_counter_def)
    qed
  qed
qed

lemma finally_without_counter:
  "without_counter (finally_block E d) = finally_block_nc E (run.truncate d)"
  by (auto simp: without_counter_def finally_block_def finally_block_nc_def split: prod.splits)

lemma truncate_driver0: "run.truncate driver0 = run0"
  by (simp add: driver0_def run0_def run.truncate_def)

text \<open>
  C9. In every environment the driver and the driver with the counter removed end in the
  same way, with the same requests sent, the same records collected and the same files
  written; the two differ only in the counter, which a pass through the loop increments
  after a page without records, resets after a page with records, and leaves alone when
  \<open>scrape_page\<close> is interrupted.
\<close>

theorem counter_is_inert:
  "without_counter (main E) = main_nc E
   \<and> fst (main E) = fst (main_nc E)
   \<and> requests (world (snd (main E))) = requests (world (snd (main_nc E)))
   \<and> all_cars (snd (main E)) = all_cars (snd (main_nc E))
   \<and> files (world (snd (main E))) = files (world (snd (main_nc E)))
   \<and> consecutive_empty (snd (loop_body E d)) =
       (case fst (scrape_page E (page d) (world d)) of
          Inl e \<Rightarrow> consecutive_empty d
        | Inr cars \<Rightarrow> if cars = [] then consecutive_empty d + 1 else 0)"
proof -
  obtain r d1 where l: "main_loop E driver0 = (r, d1)"
    by (cases "main_loop E driver0")
  then have ln: "main_loop_nc E run0 = (r, run.truncate d1)"
    using main_loop_without_counter [of E driver0]
    by (simp add: without_counter_def truncate_driver0)
  have m: "without_counter (main E) = main_nc E"
    using finally_without_counter [of E d1] by (simp add: main_def main_nc_def l ln)
  then have "fst (main E) = fst (main_nc E)" "run.truncate (snd (main E)) = snd (main_nc E)"
    by (simp_all add: without_counter_def prod_eq_iff)
  moreover from this(2) have "world (snd (main E)) = world (snd (main_nc E))"
    "all_cars (snd (main E)) = all_cars (snd (main_nc E))"
    by (metis truncate_sel)+
  moreover have "consecutive_empty (snd (loop_body E d)) =
       (case fst (scrape_page E (page d) (world d)) of
          Inl e \<Rightarrow> consecutive_empty d
        | Inr cars \<Rightarrow> if cars = [] then consecutive_empty d + 1 else 0)"
    by (auto simp: loop_body_def Let_def time_sleep_def save_to_csv_def
        split: prod.splits sum.splits option.splits)
  ultimately show ?thesis
    using m by simp
qed

end
